theory Spec2Isabelle
  imports Main
begin

section \<open>The redirector of wikimark (src/redirector/main.js)\<close>

text \<open>
  The page script reads a token from the host name, builds a SPARQL query, normalises the
  rows of the answer into an object keyed by entity URI, renders the entities and decides
  whether to navigate to the first website of the first entity.

  Conventions of the embedding:
  \<^item> a JavaScript string is a \<open>string\<close>; a \<open>char\<close> stands for a code unit below 256. The
    token comes from \<open>window.location.host\<close>, which is ASCII, and on ASCII
    \<open>toUpperCase\<close> and \<open>toLowerCase\<close> change the 26 letters only. Of the line
    terminators of the regular-expression dot, LF and CR are in that range.
  \<^item> a thrown exception is the \<open>Inl\<close> of a sum; the three places of the script that can
    throw a \<open>TypeError\<close> have one constructor each.
  \<^item> the \<open>URL\<close> constructor of the platform is a parameter \<open>URL\<close> of type
    \<open>string \<Rightarrow> url option\<close> (\<open>None\<close>: the constructor throws), and so is \<open>fetch\<close>.
  \<^item> \<open>BASE_HOST\<close> is a deployment constant (the source lists two sample values), so the
    functions that read it take it as their first argument.
\<close>

subsection \<open>Type definitions and global constants\<close>

datatype Rank = PREFERRED | NORMAL | DEPRECATED

fun Rank_code :: "Rank \<Rightarrow> nat" where
  "Rank_code PREFERRED = 1"
| "Rank_code NORMAL = 2"
| "Rank_code DEPRECATED = 100"


datatype js_error =
  TypeError_Invalid_URL      \<comment> \<open>\<open>new URL(s)\<close> on a string that does not parse\<close>
| TypeError_Undefined        \<comment> \<open>a property read on \<open>undefined\<close>\<close>
| TypeError_Null             \<comment> \<open>a property read on \<open>null\<close>\<close>

subsection \<open>Strings\<close>

definition isDigit :: "char \<Rightarrow> bool" where
  "isDigit c = (c \<in> set ''0123456789'')"

definition lineTerminator :: "char \<Rightarrow> bool" where
  "lineTerminator c = (c = CHR 0x0A \<or> c = CHR 0x0D)"

definition upperChar :: "char \<Rightarrow> char" where
  "upperChar c =
     (case map_of (zip ''abcdefghijklmnopqrstuvwxyz'' ''ABCDEFGHIJKLMNOPQRSTUVWXYZ'') c of
        None \<Rightarrow> c | Some d \<Rightarrow> d)"

definition lowerChar :: "char \<Rightarrow> char" where
  "lowerChar c =
     (case map_of (zip ''ABCDEFGHIJKLMNOPQRSTUVWXYZ'' ''abcdefghijklmnopqrstuvwxyz'') c of
        None \<Rightarrow> c | Some d \<Rightarrow> d)"

definition toUpperCase :: "string \<Rightarrow> string" where
  "toUpperCase s = map upperChar s"

definition toLowerCase :: "string \<Rightarrow> string" where
  "toLowerCase s = map lowerChar s"

definition endsWith :: "string \<Rightarrow> string \<Rightarrow> bool" where
  "endsWith str suffix =
     (length suffix \<le> length str \<and> drop (length str - length suffix) str = suffix)"

text \<open>\<open>str.lastIndexOf(s)\<close>: the greatest index at which \<open>s\<close> occurs in \<open>str\<close>, or \<open>-1\<close>.\<close>

definition lastIndexOf :: "string \<Rightarrow> string \<Rightarrow> int" where
  "lastIndexOf str s =
     (case filter (\<lambda>i. take (length s) (drop i str) = s) (rev [0..<Suc (length str)]) of
        [] \<Rightarrow> - 1
      | i # _ \<Rightarrow> int i)"

text \<open>\<open>str.substring(0, e)\<close>: a negative end counts as 0, an end past the string as its length.\<close>

definition substring0 :: "string \<Rightarrow> int \<Rightarrow> string" where
  "substring0 str e = take (nat e) str"

text \<open>\<open>removeSuffix\<close>: the empty string is falsy, so \<open>||\<close> then gives \<open>str\<close> back.\<close>

definition removeSuffix :: "string \<Rightarrow> string \<Rightarrow> string" where
  "removeSuffix str suffix =
     (let s = substring0 str (lastIndexOf str suffix) in if s = [] then str else s)"

subsection \<open>The test of the entrypoint: \<open>query.match(/q[0-9]+/i)\<close>\<close>

text \<open>
  The pattern is not anchored, so it is tried at every position; it succeeds at a position
  as soon as a \<open>q\<close> or \<open>Q\<close> is followed by one digit (the \<open>+\<close> then takes the digits that
  follow). \<open>match\<close> returns an array (truthy) or \<open>null\<close> (falsy).
\<close>

fun match_q_digits :: "string \<Rightarrow> bool" where
  "match_q_digits (c # d # cs) =
     ((c = CHR ''q'' \<or> c = CHR ''Q'') \<and> isDigit d \<or> match_q_digits (d # cs))"
| "match_q_digits _ = False"

text \<open>
  The sentence of the specification, word for word: the letter Q, in either case, followed by
  one or more digits, anywhere in the string.
\<close>

definition spec_Q_digits_anywhere :: "string \<Rightarrow> bool" where
  "spec_Q_digits_anywhere s =
     (\<exists>before q ds after. s = before @ q # ds @ after \<and> (q = CHR ''q'' \<or> q = CHR ''Q'')
        \<and> ds \<noteq> [] \<and> list_all isDigit ds)"

subsection \<open>SPARQL helpers\<close>

text \<open>
  The two template literals, line by line. A template literal begins right after the
  backquote, so both texts begin with a line feed and end with the two blanks that precede
  the closing backquote.
\<close>

definition prepareSparqlSearchQuery :: "string \<Rightarrow> string" where
  \<open>prepareSparqlSearchQuery term = concat [
     ''\<newline>'',
     ''    SELECT DISTINCT ?item ?itemLabel ?itemDescription ?website ?endDate ?rank\<newline>'',
     ''    WHERE {\<newline>'',
     ''      SERVICE wikibase:mwapi {\<newline>'',
     ''        bd:serviceParam wikibase:api "Search" .\<newline>'',
     ''        bd:serviceParam wikibase:endpoint "www.wikidata.org" .\<newline>'',
     ''        bd:serviceParam mwapi:srsearch "'', term, ''" .\<newline>'',
     ''        ?item wikibase:apiOutputItem mwapi:title .\<newline>'',
     ''        ?num wikibase:apiOrdinal true .\<newline>'',
     ''      }\<newline>'',
     ''      SERVICE wikibase:label {\<newline>'',
     ''        bd:serviceParam wikibase:language "en" .\<newline>'',
     ''        ?item rdfs:label ?itemLabel .\<newline>'',
     ''        ?item schema:description ?itemDescription .\<newline>'',
     ''      }\<newline>'',
     ''      \<newline>'',
     ''      ?item p:P856 ?statement .\<newline>'',
     ''      ?statement ps:P856 ?website .\<newline>'',
     ''      ?statement wikibase:rank ?rank .\<newline>'',
     ''      FILTER NOT EXISTS {\<newline>'',
     ''        ?statement pq:P582 ?endDate .\<newline>'',
     ''      }\<newline>'',
     ''      FILTER(?rank != wikibase:DeprecatedRank)\<newline>'',
     ''      FILTER(BOUND(?itemLabel))\<newline>'',
     ''      FILTER(BOUND(?itemDescription))\<newline>'',
     ''    }\<newline>'',
     ''    ORDER BY ASC(?num) DESC(?rank)\<newline>'',
     ''    LIMIT 20\<newline>'',
     ''  '']\<close>

definition prepareSparqlLookupQuery :: "string \<Rightarrow> string" where
  \<open>prepareSparqlLookupQuery id' = concat [
     ''\<newline>'',
     ''    SELECT DISTINCT ?item ?itemLabel ?itemDescription ?website ?endDate ?rank\<newline>'',
     ''    WHERE {\<newline>'',
     ''      BIND(wd:'', toUpperCase id', '' AS ?item)\<newline>'',
     ''    \<newline>'',
     ''      SERVICE wikibase:label {\<newline>'',
     ''        bd:serviceParam wikibase:language "en" .\<newline>'',
     ''        ?item rdfs:label ?itemLabel .\<newline>'',
     ''        ?item schema:description ?itemDescription .\<newline>'',
     ''      }\<newline>'',
     ''    \<newline>'',
     ''      ?item p:P856 ?statement .\<newline>'',
     ''      ?statement ps:P856 ?website .\<newline>'',
     ''      ?statement wikibase:rank ?rank .\<newline>'',
     ''      FILTER NOT EXISTS {\<newline>'',
     ''        ?statement pq:P582 ?endDate .\<newline>'',
     ''      }\<newline>'',
     ''      FILTER(?rank != wikibase:DeprecatedRank)\<newline>'',
     ''      FILTER(BOUND(?itemLabel))\<newline>'',
     ''      FILTER(BOUND(?itemDescription))\<newline>'',
     ''    }\<newline>'',
     ''    ORDER BY DESC(?rank)\<newline>'',
     ''    LIMIT 20\<newline>'',
     ''  '']\<close>

subsection \<open>Helpers: \<open>generatePermalink\<close>\<close>

text \<open>
  \<open>/^.*\/entity\/(Q[0-9]+)$/.exec(uri)\<close>: the group must reach the end of the string, so its
  digits are the digits the string ends with; before them comes \<open>/entity/Q\<close>, and before
  that any characters the dot accepts (no line terminator). The result is the text of the
  group, or \<open>None\<close> where \<open>exec\<close> returns \<open>null\<close>.
\<close>

definition exec_entity_pattern :: "string \<Rightarrow> string option" where
  "exec_entity_pattern uri =
     (let ds = rev (takeWhile isDigit (rev uri));
          front = rev (dropWhile isDigit (rev uri));
          dots = take (length front - 9) front
      in if ds \<noteq> [] \<and> endsWith front ''/entity/Q'' \<and> \<not> list_ex lineTerminator dots
         then Some (CHR ''Q'' # ds) else None)"

text \<open>Indexing the \<open>null\<close> that \<open>exec\<close> returns throws a \<open>TypeError\<close>.\<close>

definition generatePermalink :: "string \<Rightarrow> string \<Rightarrow> js_error + string" where
  "generatePermalink base_host uri =
     (case exec_entity_pattern uri of
        None \<Rightarrow> Inl TypeError_Null
      | Some g \<Rightarrow> Inr (''//'' @ toLowerCase g @ ''.'' @ base_host))"

text \<open>
  The shape the specification names, \<open>.../entity/Q<digits>\<close>, as the language of the
  pattern: the dots stand for the pattern's \<open>.*\<close>.
\<close>

definition spec_entity_shape :: "string \<Rightarrow> string \<Rightarrow> bool" where
  "spec_entity_shape uri ds =
     (\<exists>dots. uri = dots @ ''/entity/Q'' @ ds \<and> ds \<noteq> [] \<and> list_all isDigit ds
        \<and> \<not> list_ex lineTerminator dots)"

subsection \<open>Objects used as maps\<close>

text \<open>
  \<open>entities\<close> and \<open>RANK_MAP\<close> are ordinary objects, so three rules of the language apply
  to them. (1) Their prototype is \<open>Object.prototype\<close>: the \<open>in\<close> operator and a property
  read also find the members inherited from it. (2) The own keys are enumerated
  (\<open>Object.entries\<close>, \<open>for ... in\<close>) with the array indices first, in ascending numeric
  order, then the other strings in the order of their creation. (3) None of the inherited
  members is enumerable.

  An object is modelled by the list of its own properties in enumeration order, so that
  \<open>Object.entries(obj)\<close> is the list itself.
\<close>

definition Object_prototype_keys :: "string list" where
  "Object_prototype_keys =
     [''constructor'', ''__defineGetter__'', ''__defineSetter__'', ''hasOwnProperty'',
      ''__lookupGetter__'', ''__lookupSetter__'', ''isPrototypeOf'', ''propertyIsEnumerable'',
      ''toString'', ''valueOf'', ''__proto__'', ''toLocaleString'']"

text \<open>The \<open>in\<close> operator: an own property, or one found on the prototype.\<close>

definition hasProperty :: "(string \<times> 'v) list \<Rightarrow> string \<Rightarrow> bool" where
  "hasProperty obj k = (k \<in> set (map fst obj) \<or> k \<in> set Object_prototype_keys)"

text \<open>
  An array index is the canonical decimal text of an integer from 0 to \<open>2^32 - 2\<close>: digits
  only, no leading zero.
\<close>

definition digitsValue :: "string \<Rightarrow> int" where
  "digitsValue s = foldl (\<lambda>n c. 10 * n + (of_char c - 48)) 0 s"

definition isArrayIndex :: "string \<Rightarrow> bool" where
  "isArrayIndex k =
     (k \<noteq> [] \<and> list_all isDigit k \<and> (k = ''0'' \<or> hd k \<noteq> CHR ''0'')
        \<and> digitsValue k < 2 ^ 32 - 1)"

text \<open>
  \<open>obj[k] = v\<close> for a key that is not an own property yet: an array index goes to its
  place among the array indices, another key to the end.
\<close>

fun insertIndex :: "string \<Rightarrow> 'v \<Rightarrow> (string \<times> 'v) list \<Rightarrow> (string \<times> 'v) list" where
  "insertIndex k v [] = [(k, v)]"
| "insertIndex k v ((k', v') # rest) =
     (if isArrayIndex k' \<and> digitsValue k' < digitsValue k
      then (k', v') # insertIndex k v rest
      else (k, v) # (k', v') # rest)"

definition createProperty :: "string \<Rightarrow> 'v \<Rightarrow> (string \<times> 'v) list \<Rightarrow> (string \<times> 'v) list" where
  "createProperty k v obj = (if isArrayIndex k then insertIndex k v obj else obj @ [(k, v)])"

text \<open>\<open>isEmpty\<close>: the \<open>for ... in\<close> loop returns \<open>false\<close> at the first enumerable key.\<close>

definition isEmpty :: "(string \<times> 'v) list \<Rightarrow> bool" where
  "isEmpty obj = (case obj of [] \<Rightarrow> True | _ # _ \<Rightarrow> False)"

subsection \<open>Wikidata helpers: \<open>parseRank\<close>\<close>

text \<open>
  The value of \<open>RANK_MAP[rank]\<close>: a rank for the three own keys, the inherited member for a
  key of \<open>Object.prototype\<close> (a function, or the prototype itself for \<open>__proto__\<close>), and
  \<open>undefined\<close> for every other string. No case throws.
\<close>

datatype js_rank = Ranked Rank | Inherited string | Undefined

definition RANK_MAP :: "(string \<times> Rank) list" where
  "RANK_MAP =
     [(''http://wikiba.se/ontology#PreferredRank'', PREFERRED),
      (''http://wikiba.se/ontology#NormalRank'', NORMAL),
      (''http://wikiba.se/ontology#DeprecatedRank'', DEPRECATED)]"

definition parseRank :: "string \<Rightarrow> js_rank" where
  "parseRank rank =
     (case map_of RANK_MAP rank of
        Some r \<Rightarrow> Ranked r
      | None \<Rightarrow> if rank \<in> set Object_prototype_keys then Inherited rank else Undefined)"

subsection \<open>SPARQL helpers: \<open>transformSparqlResponse\<close>\<close>

text \<open>
  A parsed URL, with the two members the script reads. A binding is a row of
  \<open>response.results.bindings\<close>; its fields are the \<open>.value\<close> of the five variables the
  script reads (the queries bind all of them in every row).
\<close>

record url =
  href :: string
  hostname :: string

record binding =
  item_value :: string
  itemLabel_value :: string
  itemDescription_value :: string
  website_value :: string
  rank_value :: string

record website =
  url :: url
  rank :: js_rank

record entity =
  label :: string
  description :: string
  websites :: "website list"

type_synonym entities = "(string \<times> entity) list"

definition isOnion :: "url \<Rightarrow> bool" where
  "isOnion u = endsWith (hostname u) ''.onion''"

text \<open>
  \<open>entities[itemUri].websites.push(w)\<close>. After the \<open>in\<close> test the key is an own property or
  an inherited one. For an own property the website goes to the end of the list of that entity,
  in place (\<open>appendWebsite\<close>); the inherited members have no \<open>websites\<close>, and \<open>push\<close> is
  then read on \<open>undefined\<close>.
\<close>

definition appendWebsite :: "string \<Rightarrow> website \<Rightarrow> entities \<Rightarrow> entities" where
  "appendWebsite itemUri w entities =
     map (\<lambda>(k, e). if k = itemUri then (k, e\<lparr>websites := websites e @ [w]\<rparr>) else (k, e)) entities"

definition pushWebsite :: "entities \<Rightarrow> string \<Rightarrow> website \<Rightarrow> js_error + entities" where
  "pushWebsite entities itemUri w =
     (case map_of entities itemUri of
        None \<Rightarrow> Inl TypeError_Undefined
      | Some _ \<Rightarrow> Inr (appendWebsite itemUri w entities))"

text \<open>The body of the loop, for one binding.\<close>

definition transformStep :: "(string \<Rightarrow> url option) \<Rightarrow> entities \<Rightarrow> binding \<Rightarrow> js_error + entities" where
  "transformStep URL entities b =
     (let itemUri = item_value b in
      case URL (website_value b) of
        None \<Rightarrow> Inl TypeError_Invalid_URL
      | Some websiteUrl \<Rightarrow>
          if isOnion websiteUrl then Inr entities
          else
            let entities' =
                  (if \<not> hasProperty entities itemUri
                   then createProperty itemUri
                          \<lparr>label = itemLabel_value b, description = itemDescription_value b,
                           websites = []\<rparr> entities
                   else entities)
            in pushWebsite entities' itemUri \<lparr>url = websiteUrl, rank = parseRank (rank_value b)\<rparr>)"

fun transformLoop :: "(string \<Rightarrow> url option) \<Rightarrow> entities \<Rightarrow> binding list \<Rightarrow> js_error + entities" where
  "transformLoop URL entities [] = Inr entities"
| "transformLoop URL entities (b # bs) =
     (case transformStep URL entities b of
        Inl e \<Rightarrow> Inl e
      | Inr entities' \<Rightarrow> transformLoop URL entities' bs)"

definition transformSparqlResponse :: "(string \<Rightarrow> url option) \<Rightarrow> binding list \<Rightarrow> js_error + entities" where
  "transformSparqlResponse URL bindings = transformLoop URL [] bindings"

subsection \<open>UI helpers: \<open>displayResults\<close>\<close>

text \<open>
  What \<open>displayResults\<close> hands to the template engine, one card for each entity; the page
  and the template engine are taken to work. The function throws where \<open>generatePermalink\<close>
  does, and where the first entry of an empty object is destructured.
\<close>

record card =
  card_uri :: string
  card_name :: string
  card_description :: string
  card_permalink :: string
  card_urls :: "url list"

definition renderCard :: "string \<Rightarrow> string \<times> entity \<Rightarrow> js_error + card" where
  "renderCard base_host r =
     (case generatePermalink base_host (fst r) of
        Inl e \<Rightarrow> Inl e
      | Inr p \<Rightarrow>
          Inr \<lparr>card_uri = fst r, card_name = label (snd r), card_description = description (snd r),
               card_permalink = p, card_urls = map url (websites (snd r))\<rparr>)"

fun renderCards :: "string \<Rightarrow> entities \<Rightarrow> js_error + card list" where
  "renderCards base_host [] = Inr []"
| "renderCards base_host (r # rs) =
     (case renderCard base_host r of
        Inl e \<Rightarrow> Inl e
      | Inr c \<Rightarrow> (case renderCards base_host rs of Inl e \<Rightarrow> Inl e | Inr cs \<Rightarrow> Inr (c # cs)))"

definition displayResults :: "string \<Rightarrow> entities \<Rightarrow> js_error + card list" where
  "displayResults base_host results =
     (case results of
        [] \<Rightarrow> Inl TypeError_Undefined
      | topResult # otherResults \<Rightarrow> renderCards base_host (topResult # otherResults))"

subsection \<open>Entrypoint: the \<open>load\<close> handler\<close>

text \<open>
  The callback given to \<open>setTimeout\<close>: the first entry of \<open>Object.entries(results)\<close>, its
  first website, the URL of that website.
\<close>

definition redirectTarget :: "entities \<Rightarrow> js_error + url" where
  "redirectTarget results =
     (case results of
        [] \<Rightarrow> Inl TypeError_Undefined
      | r # _ \<Rightarrow> (case websites (snd r) of [] \<Rightarrow> Inl TypeError_Undefined | w # _ \<Rightarrow> Inr (url w)))"

text \<open>
  The answer of \<open>fetch\<close> as far as the handler reads it (a response that is a success is
  taken to carry a well-formed body; a \<open>fetch\<close> that rejects is outside the model), and
  what the handler has done when it ends: the query it sent, the texts it gave to
  \<open>updateStatus\<close> in order, the cards it displayed, the timer it set (the delay, and what
  the callback does when it fires), and the exception that ended it, if any.
\<close>

record response =
  ok :: bool
  bindings :: "binding list"

record outcome =
  request :: string
  statuses :: "string list"
  displayed :: "card list option"
  timer :: "(nat \<times> (js_error + url)) option"
  thrown :: "js_error option"

definition load_handler ::
  "string \<Rightarrow> (string \<Rightarrow> url option) \<Rightarrow> (string \<Rightarrow> response) \<Rightarrow> bool \<Rightarrow> string \<Rightarrow> outcome" where
  "load_handler base_host URL fetch didNavigateBack host =
     (let query = removeSuffix host (''.'' @ base_host);
          direct = match_q_digits query;
          sparql = (if direct then prepareSparqlLookupQuery query
                    else prepareSparqlSearchQuery query);
          delay = (if direct then 0 else 1000);
          resp = fetch sparql;
          out = \<lparr>request = sparql, statuses = [''Searching...''], displayed = None,
                 timer = None, thrown = None\<rparr>
      in if \<not> ok resp then out\<lparr>statuses := statuses out @ [''Search failed!'']\<rparr>
         else
           case transformSparqlResponse URL (bindings resp) of
             Inl e \<Rightarrow> out\<lparr>thrown := Some e\<rparr>
           | Inr results \<Rightarrow>
               if isEmpty results then out\<lparr>statuses := statuses out @ [''Not found.'']\<rparr>
               else
                 case displayResults base_host results of
                   Inl e \<Rightarrow> out\<lparr>statuses := statuses out @ [''Found.''], thrown := Some e\<rparr>
                 | Inr cards \<Rightarrow>
                     if \<not> didNavigateBack
                     then out\<lparr>statuses := statuses out @ [''Found.'', ''Redirecting...''],
                              displayed := Some cards,
                              timer := Some (delay, redirectTarget results)\<rparr>
                     else out\<lparr>statuses := statuses out @ [''Found.''],
                              displayed := Some cards\<rparr>)"

text \<open>The query the handler builds and sends: its lines 31 to 47.\<close>

definition handler_query :: "string \<Rightarrow> string \<Rightarrow> string" where
  "handler_query base_host host =
     (if match_q_digits (removeSuffix host (''.'' @ base_host))
      then prepareSparqlLookupQuery (removeSuffix host (''.'' @ base_host))
      else prepareSparqlSearchQuery (removeSuffix host (''.'' @ base_host)))"

subsection \<open>The normaliser in the words of the specification\<close>

text \<open>
  What a row contributes: nothing if its URL does not parse or its host ends with \<open>.onion\<close>,
  else one destination. The rows that contribute are the rows that are not skipped.
\<close>

definition destination :: "(string \<Rightarrow> url option) \<Rightarrow> binding \<Rightarrow> website option" where
  "destination URL b =
     (case URL (website_value b) of
        None \<Rightarrow> None
      | Some u \<Rightarrow> if isOnion u then None else Some \<lparr>url = u, rank = parseRank (rank_value b)\<rparr>)"

definition kept :: "(string \<Rightarrow> url option) \<Rightarrow> binding list \<Rightarrow> binding list" where
  "kept URL rows = filter (\<lambda>b. destination URL b \<noteq> None) rows"

text \<open>
  The destinations of an entity URI are the contributions of the rows with that URI, in row
  order; its entity carries the label and description of the first row with that URI that is
  not skipped; the order of the entities is the order in which their URIs are first seen.
\<close>

definition spec_destinations :: "(string \<Rightarrow> url option) \<Rightarrow> string \<Rightarrow> binding list \<Rightarrow> website list" where
  "spec_destinations URL k rows =
     List.map_filter (\<lambda>b. if item_value b = k then destination URL b else None) rows"

definition spec_entity :: "(string \<Rightarrow> url option) \<Rightarrow> binding list \<Rightarrow> string \<Rightarrow> entity option" where
  "spec_entity URL rows k =
     (case find (\<lambda>b. item_value b = k) (kept URL rows) of
        None \<Rightarrow> None
      | Some b \<Rightarrow>
          Some \<lparr>label = itemLabel_value b, description = itemDescription_value b,
                websites = spec_destinations URL k rows\<rparr>)"

fun spec_first_seen :: "string list \<Rightarrow> string list" where
  "spec_first_seen [] = []"
| "spec_first_seen (k # ks) = k # filter (\<lambda>k'. k' \<noteq> k) (spec_first_seen ks)"

subsection \<open>Data for the examples\<close>

text \<open>
  The values of the platform's \<open>URL\<close> constructor on the three strings of the examples. It is
  used at these strings and at \<open>nonsense\<close>, which has no scheme: the constructor throws there.
\<close>

definition example_URL :: "string \<Rightarrow> url option" where
  "example_URL s =
     map_of
       [(''http://a.example/'', \<lparr>href = ''http://a.example/'', hostname = ''a.example''\<rparr>),
        (''http://b.example/'', \<lparr>href = ''http://b.example/'', hostname = ''b.example''\<rparr>),
        (''http://x.onion/'', \<lparr>href = ''http://x.onion/'', hostname = ''x.onion''\<rparr>)] s"

definition example_row :: "string \<Rightarrow> string \<Rightarrow> string \<Rightarrow> binding" where
  "example_row i w r =
     \<lparr>item_value = i, itemLabel_value = ''label of '' @ i,
      itemDescription_value = ''description of '' @ i, website_value = w, rank_value = r\<rparr>"

text \<open>The concrete scenario of the specification (section 8, item 6).\<close>

definition spec_scenario :: "binding list" where
  "spec_scenario =
     [example_row ''E1'' ''http://a.example/'' ''http://wikiba.se/ontology#PreferredRank'',
      example_row ''E2'' ''http://b.example/'' ''http://wikiba.se/ontology#NormalRank'',
      example_row ''E1'' ''http://x.onion/'' ''http://wikiba.se/ontology#PreferredRank'']"

section \<open>Properties\<close>

subsection \<open>The test of the token\<close>

lemma match_q_digits_sound: "match_q_digits s \<Longrightarrow> spec_Q_digits_anywhere s"
proof (induction s rule: match_q_digits.induct)
  case (1 c d cs)
  show ?case
  proof (cases "(c = CHR ''q'' \<or> c = CHR ''Q'') \<and> isDigit d")
    case True
    then have "c # d # cs = [] @ c # [d] @ cs \<and> (c = CHR ''q'' \<or> c = CHR ''Q'') \<and> [d] \<noteq> [] \<and> list_all isDigit [d]"
      by simp
    then show ?thesis unfolding spec_Q_digits_anywhere_def by blast
  next
    case False
    with 1 have "spec_Q_digits_anywhere (d # cs)" by auto
    then obtain before q ds after where
      h: "d # cs = before @ q # ds @ after" "q = CHR ''q'' \<or> q = CHR ''Q''" "ds \<noteq> []" "list_all isDigit ds"
      unfolding spec_Q_digits_anywhere_def by blast
    then have "c # d # cs = (c # before) @ q # ds @ after" by simp
    with h show ?thesis unfolding spec_Q_digits_anywhere_def by blast
  qed
qed simp_all

lemma match_q_digits_here:
  "(q = CHR ''q'' \<or> q = CHR ''Q'') \<Longrightarrow> ds \<noteq> [] \<Longrightarrow> list_all isDigit ds \<Longrightarrow> match_q_digits (q # ds @ after)"
  by (cases ds) auto

lemma match_q_digits_later: "match_q_digits s \<Longrightarrow> match_q_digits (c # s)"
  by (cases s) auto

lemma match_q_digits_complete: "spec_Q_digits_anywhere s \<Longrightarrow> match_q_digits s"
proof -
  assume "spec_Q_digits_anywhere s"
  then obtain before q ds after where
    h: "s = before @ q # ds @ after" "q = CHR ''q'' \<or> q = CHR ''Q''" "ds \<noteq> []" "list_all isDigit ds"
    unfolding spec_Q_digits_anywhere_def by blast
  have "match_q_digits (before @ q # ds @ after)"
    by (induction before) (simp_all add: match_q_digits_here h match_q_digits_later del: match_q_digits.simps)
  with h show ?thesis by simp
qed

lemma match_q_digits_iff: "match_q_digits s = spec_Q_digits_anywhere s"
  using match_q_digits_sound match_q_digits_complete by blast

lemma lookup_neq_search: "prepareSparqlLookupQuery a \<noteq> prepareSparqlSearchQuery b"
proof -
  have "prepareSparqlLookupQuery a ! 97 = CHR ''B''"
    by (simp add: prepareSparqlLookupQuery_def)
  moreover have "prepareSparqlSearchQuery b ! 97 = CHR ''S''"
    by (simp add: prepareSparqlSearchQuery_def)
  ultimately show ?thesis by auto
qed

lemma request_load_handler:
  "request (load_handler base_host URL fetch back host) =
     (if match_q_digits (removeSuffix host (''.'' @ base_host))
      then prepareSparqlLookupQuery (removeSuffix host (''.'' @ base_host))
      else prepareSparqlSearchQuery (removeSuffix host (''.'' @ base_host)))"
  unfolding load_handler_def Let_def by (simp split: sum.split)

text \<open>
  Claim C4. The handler takes the direct-lookup branch exactly for the tokens that contain,
  in either case, the letter Q followed by one or more digits, and the search branch for all
  other tokens: the test of the handler is the sentence of the specification, the query the
  handler sends is the lookup query in the first case and the search query in the second,
  and the two queries are never equal, so the query sent tells the branch. The test is a
  total function into the booleans: no token is rejected.
\<close>

theorem token_classifier:
  "match_q_digits token = spec_Q_digits_anywhere token
   \<and> request (load_handler base_host URL fetch back host) =
       (if spec_Q_digits_anywhere (removeSuffix host (''.'' @ base_host))
        then prepareSparqlLookupQuery (removeSuffix host (''.'' @ base_host))
        else prepareSparqlSearchQuery (removeSuffix host (''.'' @ base_host)))
   \<and> prepareSparqlLookupQuery a \<noteq> prepareSparqlSearchQuery b"
  using match_q_digits_iff request_load_handler lookup_neq_search by simp

theorem token_classifier_witness:
  "spec_Q_digits_anywhere ''xQ42y'' \<and> \<not> spec_Q_digits_anywhere ''douglas-adams''
   \<and> request (load_handler ''wikimark.net'' (\<lambda>_. None) (\<lambda>_. \<lparr>ok = False, bindings = []\<rparr>) False
        ''q42.wikimark.net'') = prepareSparqlLookupQuery ''q42''"
proof -
  have r: "removeSuffix ''q42.wikimark.net'' (''.'' @ ''wikimark.net'') = ''q42''"
    by (simp add: removeSuffix_def substring0_def lastIndexOf_def)
  have m: "match_q_digits ''xQ42y''" "\<not> match_q_digits ''douglas-adams''" "match_q_digits ''q42''"
    by (simp_all add: isDigit_def)
  have t: "spec_Q_digits_anywhere ''q42''"
    using token_classifier [of "''q42''"] m by simp
  show ?thesis
    using token_classifier [of "''xQ42y''"] token_classifier [of "''douglas-adams''"]
      token_classifier [of "''q42''" "''wikimark.net''" "\<lambda>_. None"
        "\<lambda>_. \<lparr>ok = False, bindings = []\<rparr>" False "''q42.wikimark.net''"] m t
    unfolding r by simp
qed

subsection \<open>The two queries\<close>


subsection \<open>Permalinks\<close>

lemma isDigit_not_Q: "\<not> isDigit CHR ''Q''"
  by (simp add: isDigit_def)





lemma takeWhile_digits_Q: "list_all isDigit xs \<Longrightarrow> takeWhile isDigit (xs @ CHR ''Q'' # t) = xs"
  by (induction xs) (simp_all add: isDigit_not_Q)

lemma dropWhile_digits_Q: "list_all isDigit xs \<Longrightarrow> dropWhile isDigit (xs @ CHR ''Q'' # t) = CHR ''Q'' # t"
  by (induction xs) (simp_all add: isDigit_not_Q)

lemma endsWith_append: "endsWith (xs @ s) s"
  by (simp add: endsWith_def)

lemma endsWith_split: "endsWith str s \<Longrightarrow> str = take (length str - length s) str @ s"
  unfolding endsWith_def by (metis append_take_drop_id)

lemma length_entity_Q: "length ''/entity/Q'' = 9"
  by simp

lemma exec_entity_pattern_shape:
  assumes "spec_entity_shape uri ds"
  shows "exec_entity_pattern uri = Some (CHR ''Q'' # ds)"
proof -
  from assms obtain dots where
    h: "uri = dots @ ''/entity/Q'' @ ds" "ds \<noteq> []" "list_all isDigit ds" "\<not> list_ex lineTerminator dots"
    unfolding spec_entity_shape_def by blast
  define t where "t = rev (dots @ ''/entity/'')"
  have r: "rev uri = rev ds @ CHR ''Q'' # t"
    using h(1) by (simp add: t_def)
  have d: "list_all isDigit (rev ds)"
    using h(3) by (simp add: list_all_iff)
  have tw: "takeWhile isDigit (rev uri) = rev ds"
    unfolding r using d by (rule takeWhile_digits_Q)
  have dr: "dropWhile isDigit (rev uri) = CHR ''Q'' # t"
    unfolding r using d by (rule dropWhile_digits_Q)
  have f: "rev (dropWhile isDigit (rev uri)) = dots @ ''/entity/Q''"
    unfolding dr t_def by simp
  have e: "endsWith (dots @ ''/entity/Q'') ''/entity/Q''"
    by (rule endsWith_append)
  have k: "take (length (dots @ ''/entity/Q'') - 9) (dots @ ''/entity/Q'') = dots"
    by simp
  show ?thesis
    unfolding exec_entity_pattern_def tw f Let_def k using h(2,4) e by simp
qed

lemma exec_entity_pattern_Some:
  assumes "exec_entity_pattern uri = Some g"
  shows "\<exists>ds. spec_entity_shape uri ds \<and> g = CHR ''Q'' # ds"
proof -
  define ds where "ds = rev (takeWhile isDigit (rev uri))"
  define front where "front = rev (dropWhile isDigit (rev uri))"
  define dots where "dots = take (length front - 9) front"
  have "exec_entity_pattern uri =
      (if ds \<noteq> [] \<and> endsWith front ''/entity/Q'' \<and> \<not> list_ex lineTerminator dots
       then Some (CHR ''Q'' # ds) else None)"
    unfolding exec_entity_pattern_def ds_def front_def dots_def Let_def ..
  with assms have c: "ds \<noteq> []" "endsWith front ''/entity/Q''" "\<not> list_ex lineTerminator dots"
    and g: "g = CHR ''Q'' # ds"
    by (simp_all split: if_splits)
  have u: "uri = front @ ds" unfolding ds_def front_def
    by (metis rev_append rev_rev_ident takeWhile_dropWhile_id)
  have fr: "front = dots @ ''/entity/Q''"
    using endsWith_split [OF c(2)] unfolding dots_def length_entity_Q .
  have dg: "list_all isDigit ds"
    unfolding ds_def list_all_iff using set_takeWhileD by fastforce
  have "spec_entity_shape uri ds"
    unfolding spec_entity_shape_def using u fr c dg by auto
  with g show ?thesis by blast
qed

lemma exec_entity_pattern_None:
  "exec_entity_pattern uri = None \<longleftrightarrow> (\<forall>ds. \<not> spec_entity_shape uri ds)"
proof (cases "exec_entity_pattern uri")
  case None
  then show ?thesis using exec_entity_pattern_shape by fastforce
next
  case (Some g)
  then show ?thesis using exec_entity_pattern_Some by fastforce
qed



subsection \<open>Objects and the first-seen order\<close>

lemma set_spec_first_seen: "set (spec_first_seen ks) = set ks"
  by (induction ks) auto

lemma spec_first_seen_snoc:
  "spec_first_seen (ks @ [k]) = (if k \<in> set ks then spec_first_seen ks else spec_first_seen ks @ [k])"
proof (induction ks)
  case Nil
  show ?case by simp
next
  case (Cons a ks)
  have "filter (\<lambda>k'. k' \<noteq> a) (spec_first_seen ks @ [k])
      = filter (\<lambda>k'. k' \<noteq> a) (spec_first_seen ks) @ (if k = a then [] else [k])"
    by simp
  with Cons show ?case by auto
qed

lemma distinct_spec_first_seen: "distinct (spec_first_seen ks)"
  by (induction ks) (auto simp: set_spec_first_seen)

lemma kept_snoc:
  "kept URL (rows @ [b]) = (if destination URL b = None then kept URL rows else kept URL rows @ [b])"
  by (simp add: kept_def)

lemma spec_destinations_snoc:
  "spec_destinations URL k (rows @ [b]) =
     spec_destinations URL k rows @
       (if item_value b = k then (case destination URL b of None \<Rightarrow> [] | Some w \<Rightarrow> [w]) else [])"
  by (simp add: spec_destinations_def List.map_filter_def split: option.split)

lemma find_snoc:
  "find P (xs @ [x]) = (case find P xs of Some y \<Rightarrow> Some y | None \<Rightarrow> if P x then Some x else None)"
  by (induction xs) auto

lemma find_None_kept:
  "find (\<lambda>b. item_value b = k) rows = None \<longleftrightarrow> k \<notin> item_value ` set rows"
  by (auto simp: find_None_iff)

lemma set_insertIndex: "set (insertIndex k v obj) = insert (k, v) (set obj)"
  by (induction obj) (auto split: if_splits)

lemma set_createProperty: "set (createProperty k v obj) = insert (k, v) (set obj)"
  by (simp add: createProperty_def set_insertIndex)

lemma map_of_insertIndex: "map_of (insertIndex k v obj) = (map_of obj)(k \<mapsto> v)"
  by (induction obj) (auto simp: fun_eq_iff)

lemma map_of_createProperty:
  "k \<notin> set (map fst obj) \<Longrightarrow> map_of (createProperty k v obj) = (map_of obj)(k \<mapsto> v)"
proof (cases "isArrayIndex k")
  case True
  then show ?thesis by (simp add: createProperty_def map_of_insertIndex)
next
  case False
  assume "k \<notin> set (map fst obj)"
  then have "map_of obj k = None" by (simp add: map_of_eq_None_iff)
  then have "map_of [(k, v)] ++ map_of obj = (map_of obj)(k \<mapsto> v)"
    by (auto simp: fun_eq_iff map_add_def split: option.split)
  with False show ?thesis by (simp add: createProperty_def)
qed

lemma distinct_insertIndex:
  "distinct (map fst obj) \<Longrightarrow> k \<notin> set (map fst obj) \<Longrightarrow> distinct (map fst (insertIndex k v obj))"
  by (induction obj) (auto simp: set_insertIndex image_iff)

lemma distinct_createProperty:
  "distinct (map fst obj) \<Longrightarrow> k \<notin> set (map fst obj) \<Longrightarrow> distinct (map fst (createProperty k v obj))"
  by (simp add: createProperty_def distinct_insertIndex)

lemma keys_createProperty_plain:
  "\<not> isArrayIndex k \<Longrightarrow> map fst (createProperty k v obj) = map fst obj @ [k]"
  by (simp add: createProperty_def)

subsection \<open>One step of the normaliser\<close>

lemma keys_appendWebsite: "map fst (appendWebsite k w ents) = map fst ents"
  by (induction ents) (auto simp: appendWebsite_def)

lemma map_of_appendWebsite:
  "map_of (appendWebsite k w ents) x =
     (if x = k then map_option (\<lambda>e. e\<lparr>websites := websites e @ [w]\<rparr>) (map_of ents k)
      else map_of ents x)"
  by (induction ents) (auto simp: appendWebsite_def)

lemma transformStep_invalid:
  "URL (website_value b) = None \<Longrightarrow> transformStep URL ents b = Inl TypeError_Invalid_URL"
  by (simp add: transformStep_def)

lemma transformStep_onion:
  "URL (website_value b) = Some u \<Longrightarrow> isOnion u \<Longrightarrow> transformStep URL ents b = Inr ents"
  by (simp add: transformStep_def)

lemma destination_SomeD:
  "destination URL b = Some w \<Longrightarrow>
     \<exists>u. URL (website_value b) = Some u \<and> \<not> isOnion u \<and> w = \<lparr>url = u, rank = parseRank (rank_value b)\<rparr>"
  by (auto simp: destination_def split: option.splits if_splits)

lemma destination_None_iff:
  "destination URL b = None \<longleftrightarrow>
     (URL (website_value b) = None \<or> (\<exists>u. URL (website_value b) = Some u \<and> isOnion u))"
  by (auto simp: destination_def split: option.splits if_splits)


lemma map_of_own: "k \<in> set (map fst ents) \<Longrightarrow> \<exists>e. map_of ents k = Some e"
  by (cases "map_of ents k") (auto simp: map_of_eq_None_iff)

lemma transformStep_own:
  assumes "destination URL b = Some w" "item_value b \<in> set (map fst ents)"
  shows "transformStep URL ents b = Inr (appendWebsite (item_value b) w ents)"
proof -
  from assms(1) obtain u where u: "URL (website_value b) = Some u" "\<not> isOnion u"
    and w: "w = \<lparr>url = u, rank = parseRank (rank_value b)\<rparr>"
    using destination_SomeD by blast
  from map_of_own [OF assms(2)] obtain e where e: "map_of ents (item_value b) = Some e" ..
  from assms(2) have h: "hasProperty ents (item_value b)"
    by (simp add: hasProperty_def)
  show ?thesis
    unfolding transformStep_def Let_def pushWebsite_def w
    by (simp add: u h e)
qed

lemma transformStep_new:
  assumes "destination URL b = Some w" "item_value b \<notin> set (map fst ents)"
    "item_value b \<notin> set Object_prototype_keys"
  shows "transformStep URL ents b =
     Inr (appendWebsite (item_value b) w
           (createProperty (item_value b)
              \<lparr>label = itemLabel_value b, description = itemDescription_value b, websites = []\<rparr> ents))"
proof -
  from assms(1) obtain u where u: "URL (website_value b) = Some u" "\<not> isOnion u"
      "w = \<lparr>url = u, rank = parseRank (rank_value b)\<rparr>"
    using destination_SomeD by blast
  show ?thesis
    using u assms(2,3)
    by (simp add: transformStep_def Let_def hasProperty_def pushWebsite_def map_of_createProperty)
qed

lemma transformStep_inherited:
  assumes "destination URL b = Some w" "item_value b \<notin> set (map fst ents)"
    "item_value b \<in> set Object_prototype_keys"
  shows "transformStep URL ents b = Inl TypeError_Undefined"
proof -
  from assms(1) obtain u where u: "URL (website_value b) = Some u" "\<not> isOnion u"
    using destination_SomeD by blast
  from assms(2) have "map_of ents (item_value b) = None"
    by (simp add: map_of_eq_None_iff)
  with u assms(3) show ?thesis
    by (simp add: transformStep_def Let_def hasProperty_def pushWebsite_def)
qed

lemma transformLoop_append:
  "transformLoop URL ents (xs @ ys) =
     (case transformLoop URL ents xs of Inl e \<Rightarrow> Inl e | Inr ents' \<Rightarrow> transformLoop URL ents' ys)"
  by (induction xs arbitrary: ents) (auto split: sum.splits)

lemma transform_snoc:
  "transformSparqlResponse URL (rows @ [b]) =
     (case transformSparqlResponse URL rows of Inl e \<Rightarrow> Inl e | Inr m \<Rightarrow> transformStep URL m b)"
  by (simp add: transformSparqlResponse_def transformLoop_append split: sum.splits)

lemma transform_snoc_Inr:
  assumes "transformSparqlResponse URL (rows @ [b]) = Inr m"
  obtains m0 where "transformSparqlResponse URL rows = Inr m0" "transformStep URL m0 b = Inr m"
  using assms by (auto simp: transform_snoc split: sum.splits)

subsection \<open>The normaliser against the specification\<close>

lemma spec_destinations_Nil: "spec_destinations URL k [] = []"
  by (simp add: spec_destinations_def List.map_filter_simps)

lemma spec_destinations_Cons:
  "spec_destinations URL k (b # rows) =
     (if item_value b = k then (case destination URL b of None \<Rightarrow> [] | Some w \<Rightarrow> [w]) else [])
       @ spec_destinations URL k rows"
  by (simp add: spec_destinations_def List.map_filter_simps split: option.split)

lemma kept_Cons:
  "kept URL (b # rows) = (if destination URL b = None then kept URL rows else b # kept URL rows)"
  by (simp add: kept_def)

lemma spec_destinations_empty:
  "k \<notin> item_value ` set (kept URL rows) \<Longrightarrow> spec_destinations URL k rows = []"
proof (induction rows)
  case Nil
  show ?case by (rule spec_destinations_Nil)
next
  case (Cons b rows)
  show ?case
  proof (cases "destination URL b")
    case None
    with Cons show ?thesis by (simp add: spec_destinations_Cons kept_Cons)
  next
    case (Some w)
    with Cons show ?thesis by (auto simp: spec_destinations_Cons kept_Cons)
  qed
qed

lemma spec_entity_Nil: "spec_entity URL [] k = None"
  by (simp add: spec_entity_def kept_def)

lemma spec_entity_None_iff:
  "spec_entity URL rows k = None \<longleftrightarrow> k \<notin> item_value ` set (kept URL rows)"
proof -
  have "spec_entity URL rows k = None \<longleftrightarrow> find (\<lambda>b. item_value b = k) (kept URL rows) = None"
    by (simp add: spec_entity_def split: option.split)
  then show ?thesis by (simp add: find_None_kept)
qed

lemma spec_entity_snoc_skipped:
  "destination URL b = None \<Longrightarrow> spec_entity URL (rows @ [b]) k = spec_entity URL rows k"
  by (simp add: spec_entity_def kept_snoc spec_destinations_snoc cong: option.case_cong)

lemma spec_entity_snoc_other:
  "k \<noteq> item_value b \<Longrightarrow> spec_entity URL (rows @ [b]) k = spec_entity URL rows k"
  by (simp add: spec_entity_def kept_snoc spec_destinations_snoc find_snoc
      split: option.split cong: option.case_cong)

lemma spec_entity_snoc_first:
  assumes "destination URL b = Some w" "spec_entity URL rows (item_value b) = None"
  shows "spec_entity URL (rows @ [b]) (item_value b) =
     Some \<lparr>label = itemLabel_value b, description = itemDescription_value b, websites = [w]\<rparr>"
proof -
  from assms(2) have n: "item_value b \<notin> item_value ` set (kept URL rows)"
    by (simp add: spec_entity_None_iff)
  then have f: "find (\<lambda>b'. item_value b' = item_value b) (kept URL rows) = None"
    by (simp add: find_None_kept)
  from n have d: "spec_destinations URL (item_value b) rows = []"
    by (rule spec_destinations_empty)
  show ?thesis
    unfolding spec_entity_def using assms(1)
    by (simp add: kept_snoc find_snoc f spec_destinations_snoc d)
qed

lemma spec_entity_snoc_again:
  assumes "destination URL b = Some w" "spec_entity URL rows (item_value b) = Some e"
  shows "spec_entity URL (rows @ [b]) (item_value b) = Some (e\<lparr>websites := websites e @ [w]\<rparr>)"
proof -
  from assms(2) obtain b0 where f: "find (\<lambda>b'. item_value b' = item_value b) (kept URL rows) = Some b0"
    and e: "e = \<lparr>label = itemLabel_value b0, description = itemDescription_value b0,
                websites = spec_destinations URL (item_value b) rows\<rparr>"
    unfolding spec_entity_def by (auto split: option.splits)
  show ?thesis
    unfolding spec_entity_def e using assms(1)
    by (simp add: kept_snoc find_snoc f spec_destinations_snoc)
qed


lemma normalizer_map_of:
  "transformSparqlResponse URL rows = Inr m \<Longrightarrow>
     (\<forall>k. map_of m k = spec_entity URL rows k) \<and> distinct (map fst m)"
proof (induction rows arbitrary: m rule: rev_induct)
  case Nil
  then show ?case
    by (simp add: transformSparqlResponse_def spec_entity_Nil)
next
  case (snoc b rows)
  from snoc.prems obtain m0 where
    m0: "transformSparqlResponse URL rows = Inr m0" and step: "transformStep URL m0 b = Inr m"
    by (rule transform_snoc_Inr)
  from snoc.IH [OF m0] have ih: "\<And>k. map_of m0 k = spec_entity URL rows k"
    and d0: "distinct (map fst m0)" by simp_all
  show ?case
  proof (cases "destination URL b")
    case None
    have "m = m0"
    proof (cases "URL (website_value b)")
      case N: None
      with step show ?thesis by (simp add: transformStep_invalid)
    next
      case (Some u)
      with None have "isOnion u" by (simp add: destination_def split: if_splits)
      with Some step show ?thesis by (simp add: transformStep_onion)
    qed
    with None ih d0 show ?thesis
      by (simp add: spec_entity_snoc_skipped)
  next
    case (Some w)
    show ?thesis
    proof (cases "item_value b \<in> set (map fst m0)")
      case True
      with step Some have m: "m = appendWebsite (item_value b) w m0"
        by (simp add: transformStep_own)
      from map_of_own [OF True] obtain e where e: "map_of m0 (item_value b) = Some e" ..
      then have se: "spec_entity URL rows (item_value b) = Some e"
        by (simp add: ih)
      have "map_of m k = spec_entity URL (rows @ [b]) k" for k
      proof (cases "k = item_value b")
        case True
        then show ?thesis
          unfolding m map_of_appendWebsite
          by (simp add: e spec_entity_snoc_again [OF Some se])
      next
        case False
        then show ?thesis
          unfolding m map_of_appendWebsite
          by (simp add: ih spec_entity_snoc_other)
      qed
      moreover have "distinct (map fst m)"
        unfolding m keys_appendWebsite by (rule d0)
      ultimately show ?thesis by simp
    next
      case False
      have np: "item_value b \<notin> set Object_prototype_keys"
      proof
        assume "item_value b \<in> set Object_prototype_keys"
        with step Some False show False by (simp add: transformStep_inherited)
      qed
      define fresh where "fresh = \<lparr>label = itemLabel_value b,
        description = itemDescription_value b, websites = []\<rparr>"
      from step Some False np
      have m: "m = appendWebsite (item_value b) w (createProperty (item_value b) fresh m0)"
        unfolding fresh_def by (simp add: transformStep_new)
      from False have "map_of m0 (item_value b) = None"
        by (simp add: map_of_eq_None_iff)
      then have se: "spec_entity URL rows (item_value b) = None"
        by (simp add: ih)
      have "map_of m k = spec_entity URL (rows @ [b]) k" for k
      proof (cases "k = item_value b")
        case True
        then show ?thesis
          unfolding m map_of_appendWebsite map_of_createProperty [OF False]
          by (simp add: fresh_def spec_entity_snoc_first [OF Some se])
      next
        case False
        then show ?thesis
          unfolding m map_of_appendWebsite map_of_createProperty [OF \<open>item_value b \<notin> set (map fst m0)\<close>]
          by (simp add: ih spec_entity_snoc_other)
      qed
      moreover have "distinct (map fst m)"
        unfolding m keys_appendWebsite using d0 False by (rule distinct_createProperty)
      ultimately show ?thesis by simp
    qed
  qed
qed

lemma keys_createProperty: "set (map fst (createProperty k v obj)) = insert k (set (map fst obj))"
  by (simp add: set_createProperty)

lemma kept_destination: "b \<in> set (kept URL rows) \<Longrightarrow> destination URL b \<noteq> None"
  by (simp add: kept_def)

lemma normalizer_keys:
  assumes "transformSparqlResponse URL rows = Inr m"
  shows "set (map fst m) = item_value ` set (kept URL rows)"
proof -
  have "k \<in> set (map fst m) \<longleftrightarrow> k \<in> item_value ` set (kept URL rows)" for k
  proof -
    have "k \<in> set (map fst m) \<longleftrightarrow> map_of m k \<noteq> None"
      by (simp add: map_of_eq_None_iff)
    also have "\<dots> \<longleftrightarrow> spec_entity URL rows k \<noteq> None"
      using normalizer_map_of [OF assms] by simp
    also have "\<dots> \<longleftrightarrow> k \<in> item_value ` set (kept URL rows)"
      by (simp add: spec_entity_None_iff)
    finally show ?thesis .
  qed
  then show ?thesis by blast
qed

lemma normalizer_order:
  "transformSparqlResponse URL rows = Inr m \<Longrightarrow> \<forall>k\<in>set (map fst m). \<not> isArrayIndex k \<Longrightarrow>
     map fst m = spec_first_seen (map item_value (kept URL rows))"
proof (induction rows arbitrary: m rule: rev_induct)
  case Nil
  then show ?case
    by (simp add: transformSparqlResponse_def kept_def)
next
  case (snoc b rows)
  from snoc.prems(1) obtain m0 where
    m0: "transformSparqlResponse URL rows = Inr m0" and step: "transformStep URL m0 b = Inr m"
    by (rule transform_snoc_Inr)
  have keys0: "set (map fst m0) = item_value ` set (kept URL rows)"
    using m0 by (rule normalizer_keys)
  show ?case
  proof (cases "destination URL b")
    case None
    have "m = m0"
    proof (cases "URL (website_value b)")
      case N: None
      with step show ?thesis by (simp add: transformStep_invalid)
    next
      case (Some u)
      with None have "isOnion u" by (simp add: destination_def split: if_splits)
      with Some step show ?thesis by (simp add: transformStep_onion)
    qed
    with None snoc.IH [OF m0] snoc.prems(2) show ?thesis
      by (simp add: kept_snoc)
  next
    case (Some w)
    show ?thesis
    proof (cases "item_value b \<in> set (map fst m0)")
      case True
      with step Some have m: "m = appendWebsite (item_value b) w m0"
        by (simp add: transformStep_own)
      then have k: "map fst m = map fst m0"
        by (simp add: keys_appendWebsite)
      with snoc.IH [OF m0] snoc.prems(2)
      have "map fst m0 = spec_first_seen (map item_value (kept URL rows))" by simp
      moreover from True keys0 have "item_value b \<in> set (map item_value (kept URL rows))"
        by simp
      ultimately show ?thesis
        using Some k by (simp add: kept_snoc spec_first_seen_snoc)
    next
      case False
      have np: "item_value b \<notin> set Object_prototype_keys"
      proof
        assume "item_value b \<in> set Object_prototype_keys"
        with step Some False show False by (simp add: transformStep_inherited)
      qed
      define fresh where "fresh = \<lparr>label = itemLabel_value b,
        description = itemDescription_value b, websites = []\<rparr>"
      from step Some False np
      have m: "m = appendWebsite (item_value b) w (createProperty (item_value b) fresh m0)"
        unfolding fresh_def by (simp add: transformStep_new)
      then have ks: "set (map fst m) = insert (item_value b) (set (map fst m0))"
        by (simp only: keys_appendWebsite keys_createProperty)
      with snoc.prems(2) have plain: "\<not> isArrayIndex (item_value b)"
        and plain0: "\<forall>k\<in>set (map fst m0). \<not> isArrayIndex k"
        by blast+
      from m plain have k: "map fst m = map fst m0 @ [item_value b]"
        by (simp add: keys_appendWebsite keys_createProperty_plain)
      from snoc.IH [OF m0 plain0]
      have "map fst m0 = spec_first_seen (map item_value (kept URL rows))" .
      moreover from False keys0 have "item_value b \<notin> set (map item_value (kept URL rows))"
        by simp
      ultimately show ?thesis
        using Some k by (simp add: kept_snoc spec_first_seen_snoc)
    qed
  qed
qed

lemma spec_destinations_kept:
  "b \<in> set (kept URL rows) \<Longrightarrow> spec_destinations URL (item_value b) rows \<noteq> []"
proof (induction rows)
  case Nil
  then show ?case by (simp add: kept_def)
next
  case (Cons a rows)
  show ?case
  proof (cases "b = a")
    case True
    with Cons.prems have "destination URL a \<noteq> None"
      using kept_destination by simp
    with True show ?thesis
      by (auto simp: spec_destinations_Cons)
  next
    case False
    with Cons show ?thesis
      by (simp add: spec_destinations_Cons kept_Cons split: if_splits)
  qed
qed

lemma spec_entity_websites:
  assumes "spec_entity URL rows k = Some e"
  shows "websites e = spec_destinations URL k rows \<and> websites e \<noteq> []"
proof -
  from assms obtain b0 where f: "find (\<lambda>b'. item_value b' = k) (kept URL rows) = Some b0"
    and e: "e = \<lparr>label = itemLabel_value b0, description = itemDescription_value b0,
                websites = spec_destinations URL k rows\<rparr>"
    unfolding spec_entity_def by (auto split: option.splits)
  from f have "b0 \<in> set (kept URL rows)" "item_value b0 = k"
    by (auto simp: find_Some_iff)
  with spec_destinations_kept [of b0 URL rows] e show ?thesis by simp
qed

lemma normalizer_entry:
  assumes "transformSparqlResponse URL rows = Inr m" "(k, e) \<in> set m"
  shows "spec_entity URL rows k = Some e"
proof -
  from normalizer_map_of [OF assms(1)] have "distinct (map fst m)"
    and "map_of m k = spec_entity URL rows k" by simp_all
  with assms(2) show ?thesis by simp
qed

lemma normalizer_total:
  "(\<exists>m. transformSparqlResponse URL rows = Inr m) \<longleftrightarrow>
     (\<forall>b\<in>set rows. URL (website_value b) \<noteq> None)
     \<and> (\<forall>b\<in>set (kept URL rows). item_value b \<notin> set Object_prototype_keys)"
proof (induction rows rule: rev_induct)
  case Nil
  show ?case by (simp add: transformSparqlResponse_def kept_def)
next
  case (snoc b rows)
  show ?case
  proof (cases "transformSparqlResponse URL rows")
    case (Inl err)
    then have "transformSparqlResponse URL (rows @ [b]) = Inl err"
      by (simp add: transform_snoc)
    moreover from Inl snoc have "\<not> ((\<forall>b\<in>set rows. URL (website_value b) \<noteq> None)
     \<and> (\<forall>b\<in>set (kept URL rows). item_value b \<notin> set Object_prototype_keys))"
      by simp
    ultimately show ?thesis by (auto simp: kept_snoc)
  next
    case (Inr m0)
    with snoc have pre: "\<forall>b\<in>set rows. URL (website_value b) \<noteq> None"
      "\<forall>b\<in>set (kept URL rows). item_value b \<notin> set Object_prototype_keys"
      by auto
    have t: "transformSparqlResponse URL (rows @ [b]) = transformStep URL m0 b"
      using Inr by (simp add: transform_snoc)
    have keys0: "set (map fst m0) = item_value ` set (kept URL rows)"
      using Inr by (rule normalizer_keys)
    show ?thesis
    proof (cases "destination URL b")
      case None
      show ?thesis
      proof (cases "URL (website_value b)")
        case N: None
        with pre None show ?thesis
          unfolding t by (simp add: transformStep_invalid kept_snoc)
      next
        case (Some u)
        with None have "isOnion u" by (simp add: destination_def split: if_splits)
        with Some pre None show ?thesis
          unfolding t by (simp add: transformStep_onion kept_snoc)
      qed
    next
      case (Some w)
      then have u: "URL (website_value b) \<noteq> None"
        by (auto simp: destination_def split: option.splits)
      show ?thesis
      proof (cases "item_value b \<in> set (map fst m0)")
        case True
        with keys0 pre(2) have "item_value b \<notin> set Object_prototype_keys"
          by auto
        with True Some pre u show ?thesis
          unfolding t by (simp add: transformStep_own kept_snoc)
      next
        case False
        show ?thesis
        proof (cases "item_value b \<in> set Object_prototype_keys")
          case T: True
          with False Some pre u show ?thesis
            unfolding t by (simp add: transformStep_inherited kept_snoc)
        next
          case F: False
          with False Some pre u show ?thesis
            unfolding t by (simp add: transformStep_new kept_snoc)
        qed
      qed
    qed
  qed
qed

subsection \<open>The claims about the normaliser\<close>

lemmas eval_defs = transformSparqlResponse_def transformStep_def Let_def pushWebsite_def
  appendWebsite_def createProperty_def hasProperty_def isOnion_def endsWith_def parseRank_def
  RANK_MAP_def Object_prototype_keys_def isArrayIndex_def digitsValue_def isDigit_def
  example_URL_def example_row_def




text \<open>
  Claim C2. A row whose URL parses to a host that ends with \<open>.onion\<close> is skipped entirely:
  the step of the loop leaves the object as it is, so the result of the normaliser is the
  result for the rows without that row, and the row is not among the rows that contribute. If
  the normaliser returns an object and no row of the entity URI of that row is kept, the URI
  is not a key of the object.
\<close>

theorem onion_rows_skipped:
  assumes "URL (website_value b) = Some u" "endsWith (hostname u) ''.onion''"
  shows "transformStep URL entities b = Inr entities
     \<and> transformSparqlResponse URL (before @ b # after) = transformSparqlResponse URL (before @ after)
     \<and> (transformSparqlResponse URL rows = Inr m
          \<and> (\<forall>r\<in>set (kept URL rows). item_value r \<noteq> item_value b)
        \<longrightarrow> item_value b \<notin> set (map fst m))
     \<and> b \<notin> set (kept URL rows)"
proof (intro conjI impI)
  from assms have o: "isOnion u" by (simp add: isOnion_def)
  note skip = transformStep_onion [of URL b u, OF assms(1) o]
  show "transformStep URL entities b = Inr entities"
    by (rule skip)
  have "transformLoop URL ents (b # after) = transformLoop URL ents after" for ents
    using skip [of ents] by simp
  then show "transformSparqlResponse URL (before @ b # after)
      = transformSparqlResponse URL (before @ after)"
    by (simp add: transformSparqlResponse_def transformLoop_append cong: sum.case_cong)
  from assms(1) o have "destination URL b = None"
    by (simp add: destination_def)
  then show "b \<notin> set (kept URL rows)"
    by (simp add: kept_def)
next
  assume "transformSparqlResponse URL rows = Inr m
      \<and> (\<forall>r\<in>set (kept URL rows). item_value r \<noteq> item_value b)"
  then show "item_value b \<notin> set (map fst m)"
    using normalizer_keys [of URL rows m] by auto
qed

theorem onion_rows_skipped_witness:
  "example_URL ''http://x.onion/'' = Some \<lparr>href = ''http://x.onion/'', hostname = ''x.onion''\<rparr>
   \<and> endsWith ''x.onion'' ''.onion''
   \<and> transformSparqlResponse example_URL
        [example_row ''E3'' ''http://x.onion/'' ''http://wikiba.se/ontology#NormalRank''] = Inr []
   \<and> transformSparqlResponse example_URL spec_scenario = transformSparqlResponse example_URL (take 2 spec_scenario)"
proof -
  define b where "b = example_row ''E3'' ''http://x.onion/'' ''http://wikiba.se/ontology#NormalRank''"
  define c where "c = example_row ''E1'' ''http://x.onion/'' ''http://wikiba.se/ontology#PreferredRank''"
  define u where "u = \<lparr>href = ''http://x.onion/'', hostname = ''x.onion''\<rparr>"
  have 1: "example_URL (website_value b) = Some u" "example_URL (website_value c) = Some u"
    by (simp_all add: b_def c_def u_def example_URL_def example_row_def)
  have 2: "endsWith (hostname u) ''.onion''"
    by (simp add: u_def endsWith_def)
  have 3: "transformSparqlResponse example_URL ([] @ b # []) = transformSparqlResponse example_URL ([] @ [])"
    using onion_rows_skipped [where URL = example_URL and b = b and u = u, OF 1(1) 2] by blast
  have 4: "transformSparqlResponse example_URL (take 2 spec_scenario @ c # [])
      = transformSparqlResponse example_URL (take 2 spec_scenario @ [])"
    using onion_rows_skipped [where URL = example_URL and b = c and u = u, OF 1(2) 2] by blast
  have 5: "spec_scenario = take 2 spec_scenario @ c # []"
    by (simp add: spec_scenario_def c_def)
  from 3 have "transformSparqlResponse example_URL [b] = Inr []"
    by (simp add: transformSparqlResponse_def)
  moreover from 4 5 have "transformSparqlResponse example_URL spec_scenario
      = transformSparqlResponse example_URL (take 2 spec_scenario)"
    by simp
  ultimately show ?thesis
    using 1 2 by (simp add: b_def u_def example_row_def)
qed

lemma hd_spec_first_seen: "ks \<noteq> [] \<Longrightarrow> hd (spec_first_seen ks) = hd ks"
  by (cases ks) simp_all

lemma normalizer_websites_nonempty:
  assumes "transformSparqlResponse URL rows = Inr m" "r \<in> set m"
  shows "websites (snd r) \<noteq> []"
proof -
  from assms(2) have "(fst r, snd r) \<in> set m" by simp
  with assms(1) have "spec_entity URL rows (fst r) = Some (snd r)"
    by (rule normalizer_entry)
  then show ?thesis
    using spec_entity_websites by blast
qed

lemma redirectTarget_hd:
  "m \<noteq> [] \<Longrightarrow> websites (snd (hd m)) \<noteq> [] \<Longrightarrow>
     redirectTarget m = Inr (url (hd (websites (snd (hd m)))))"
  by (cases m; cases "websites (snd (hd m))") (simp_all add: redirectTarget_def)

lemma normalizer_top:
  assumes "transformSparqlResponse URL rows = Inr m" "m \<noteq> []"
    "\<forall>k\<in>set (map fst m). \<not> isArrayIndex k"
  shows "fst (hd m) = item_value (hd (kept URL rows))"
proof -
  from normalizer_order [OF assms(1,3)]
  have o: "map fst m = spec_first_seen (map item_value (kept URL rows))" .
  with assms(2) have "kept URL rows \<noteq> []"
    by auto
  then have "hd (spec_first_seen (map item_value (kept URL rows))) = item_value (hd (kept URL rows))"
    by (simp add: hd_spec_first_seen hd_map)
  with o assms(2) show ?thesis
    by (metis hd_map)
qed

lemma entity_shape_not_index: "spec_entity_shape k ds \<Longrightarrow> \<not> isArrayIndex k"
proof -
  assume "spec_entity_shape k ds"
  then obtain dots where "k = dots @ ''/entity/Q'' @ ds"
    unfolding spec_entity_shape_def by blast
  then have "CHR ''Q'' \<in> set k" by simp
  then have "\<not> list_all isDigit k"
    using isDigit_not_Q by (auto simp: list_all_iff)
  then show ?thesis by (simp add: isArrayIndex_def)
qed











text \<open>
  Claim C10. If the URL of some row does not parse, the normaliser throws and returns no
  object, whatever the other rows are: it returns only if every URL parses. If the rows
  before such a row are normalised without error, the error is the \<open>TypeError\<close> of the \<open>URL\<close>
  constructor, and what those rows had built is lost. A row with an unknown rank code, in
  contrast, is kept.
\<close>

theorem unparsable_url_aborts:
  "((\<exists>b\<in>set rows. URL (website_value b) = None) \<longrightarrow> (\<exists>e. transformSparqlResponse URL rows = Inl e))
   \<and> (transformSparqlResponse URL before = Inr m \<and> URL (website_value b) = None \<longrightarrow>
        transformSparqlResponse URL (before @ b # after) = Inl TypeError_Invalid_URL)"
proof (intro conjI impI)
  assume "\<exists>b\<in>set rows. URL (website_value b) = None"
  then have "\<not> (\<exists>m. transformSparqlResponse URL rows = Inr m)"
    by (simp add: normalizer_total)
  then show "\<exists>e. transformSparqlResponse URL rows = Inl e"
    by (cases "transformSparqlResponse URL rows") simp_all
next
  assume h: "transformSparqlResponse URL before = Inr m \<and> URL (website_value b) = None"
  then have "transformLoop URL m (b # after) = Inl TypeError_Invalid_URL"
    by (simp add: transformStep_invalid)
  with h show "transformSparqlResponse URL (before @ b # after) = Inl TypeError_Invalid_URL"
    by (simp add: transformSparqlResponse_def transformLoop_append)
qed

theorem unparsable_url_aborts_witness:
  "transformSparqlResponse example_URL
      [example_row ''E1'' ''http://a.example/'' ''http://wikiba.se/ontology#NormalRank''] =
     Inr [(''E1'', \<lparr>label = ''label of E1'', description = ''description of E1'',
                   websites = [\<lparr>url = \<lparr>href = ''http://a.example/'', hostname = ''a.example''\<rparr>,
                                rank = Ranked NORMAL\<rparr>]\<rparr>)]
   \<and> example_URL ''nonsense'' = None
   \<and> transformSparqlResponse example_URL
      [example_row ''E1'' ''http://a.example/'' ''http://wikiba.se/ontology#NormalRank'',
       example_row ''E2'' ''nonsense'' ''http://wikiba.se/ontology#NormalRank'',
       example_row ''E3'' ''http://b.example/'' ''http://wikiba.se/ontology#NormalRank''] =
     Inl TypeError_Invalid_URL
   \<and> transformSparqlResponse example_URL
      [example_row ''E1'' ''http://a.example/'' ''http://wikiba.se/ontology#NormalRank'',
       example_row ''E2'' ''http://b.example/'' ''urn:unknown''] =
     Inr [(''E1'', \<lparr>label = ''label of E1'', description = ''description of E1'',
                   websites = [\<lparr>url = \<lparr>href = ''http://a.example/'', hostname = ''a.example''\<rparr>,
                                rank = Ranked NORMAL\<rparr>]\<rparr>),
          (''E2'', \<lparr>label = ''label of E2'', description = ''description of E2'',
                   websites = [\<lparr>url = \<lparr>href = ''http://b.example/'', hostname = ''b.example''\<rparr>,
                                rank = Undefined\<rparr>]\<rparr>)]"
proof -
  define good where "good = example_row ''E1'' ''http://a.example/'' ''http://wikiba.se/ontology#NormalRank''"
  define bad where "bad = example_row ''E2'' ''nonsense'' ''http://wikiba.se/ontology#NormalRank''"
  define later where "later = example_row ''E3'' ''http://b.example/'' ''http://wikiba.se/ontology#NormalRank''"
  define m where "m = [(''E1'', \<lparr>label = ''label of E1'', description = ''description of E1'',
                   websites = [\<lparr>url = \<lparr>href = ''http://a.example/'', hostname = ''a.example''\<rparr>,
                                rank = Ranked NORMAL\<rparr>]\<rparr>)]"
  have 1: "transformSparqlResponse example_URL [good] = Inr m"
    by (simp add: good_def m_def eval_defs)
  have 2: "example_URL ''nonsense'' = None"
    by (simp add: example_URL_def)
  then have 3: "example_URL (website_value bad) = None"
    by (simp add: bad_def example_row_def)
  have "transformSparqlResponse example_URL ([good] @ bad # [later]) = Inl TypeError_Invalid_URL"
    using unparsable_url_aborts [where URL = example_URL and before = "[good]" and m = m
        and b = bad and after = "[later]", THEN conjunct2] 1 3
    by blast
  then have 4: "transformSparqlResponse example_URL [good, bad, later] = Inl TypeError_Invalid_URL"
    by simp
  have 5: "transformSparqlResponse example_URL
      [good, example_row ''E2'' ''http://b.example/'' ''urn:unknown''] =
     Inr [(''E1'', \<lparr>label = ''label of E1'', description = ''description of E1'',
                   websites = [\<lparr>url = \<lparr>href = ''http://a.example/'', hostname = ''a.example''\<rparr>,
                                rank = Ranked NORMAL\<rparr>]\<rparr>),
          (''E2'', \<lparr>label = ''label of E2'', description = ''description of E2'',
                   websites = [\<lparr>url = \<lparr>href = ''http://b.example/'', hostname = ''b.example''\<rparr>,
                                rank = Undefined\<rparr>]\<rparr>)]"
    by (simp add: good_def eval_defs)
  have "\<exists>b\<in>set [good, bad, later]. example_URL (website_value b) = None"
    using 3 by simp
  then have 6: "\<exists>e. transformSparqlResponse example_URL [good, bad, later] = Inl e"
    using unparsable_url_aborts [where URL = example_URL and rows = "[good, bad, later]",
        THEN conjunct1]
    by blast
  from 1 2 4 5 6 show ?thesis
    unfolding good_def bad_def later_def m_def by (simp only: simp_thms)
qed

subsection \<open>The claims about the handler\<close>

lemma renderCard_shape:
  "spec_entity_shape (fst r) ds \<Longrightarrow> \<exists>c. renderCard base_host r = Inr c \<and> card_uri c = fst r"
  by (simp add: renderCard_def generatePermalink_def exec_entity_pattern_shape)

lemma renderCard_no_shape:
  "\<forall>ds. \<not> spec_entity_shape (fst r) ds \<Longrightarrow> renderCard base_host r = Inl TypeError_Null"
  by (simp add: renderCard_def generatePermalink_def exec_entity_pattern_None [THEN iffD2])

lemma renderCards_shape:
  "\<forall>k\<in>set (map fst m). \<exists>ds. spec_entity_shape k ds \<Longrightarrow>
     \<exists>cards. renderCards base_host m = Inr cards \<and> map card_uri cards = map fst m"
proof (induction m)
  case Nil
  show ?case by simp
next
  case (Cons r m)
  then obtain ds where "spec_entity_shape (fst r) ds" by auto
  from renderCard_shape [OF this] obtain c where c: "renderCard base_host r = Inr c" "card_uri c = fst r"
    by blast
  from Cons obtain cards where "renderCards base_host m = Inr cards" "map card_uri cards = map fst m"
    by auto
  with c show ?case by simp
qed

lemma displayResults_shape:
  "m \<noteq> [] \<Longrightarrow> \<forall>k\<in>set (map fst m). \<exists>ds. spec_entity_shape k ds \<Longrightarrow>
     \<exists>cards. displayResults base_host m = Inr cards \<and> map card_uri cards = map fst m"
  using renderCards_shape [of m base_host] by (cases m) (simp_all add: displayResults_def)

lemma displayResults_top_no_shape:
  "m \<noteq> [] \<Longrightarrow> \<forall>ds. \<not> spec_entity_shape (fst (hd m)) ds \<Longrightarrow>
     displayResults base_host m = Inl TypeError_Null"
  by (cases m) (simp_all add: displayResults_def renderCard_no_shape)

lemma load_handler_failed:
  "\<not> ok (fetch (handler_query base_host host)) \<Longrightarrow>
     load_handler base_host URL fetch navigatedBack host =
       \<lparr>request = handler_query base_host host, statuses = [''Searching...'', ''Search failed!''],
        displayed = None, timer = None, thrown = None\<rparr>"
  by (simp add: load_handler_def handler_query_def Let_def cong: if_cong)

lemma load_handler_thrown:
  "ok (fetch (handler_query base_host host)) \<Longrightarrow>
   transformSparqlResponse URL (bindings (fetch (handler_query base_host host))) = Inl e \<Longrightarrow>
     load_handler base_host URL fetch navigatedBack host =
       \<lparr>request = handler_query base_host host, statuses = [''Searching...''],
        displayed = None, timer = None, thrown = Some e\<rparr>"
  by (simp add: load_handler_def handler_query_def Let_def cong: if_cong)

lemma load_handler_not_found:
  "ok (fetch (handler_query base_host host)) \<Longrightarrow>
   transformSparqlResponse URL (bindings (fetch (handler_query base_host host))) = Inr [] \<Longrightarrow>
     load_handler base_host URL fetch navigatedBack host =
       \<lparr>request = handler_query base_host host, statuses = [''Searching...'', ''Not found.''],
        displayed = None, timer = None, thrown = None\<rparr>"
  by (simp add: load_handler_def handler_query_def Let_def isEmpty_def cong: if_cong)

lemma load_handler_display_thrown:
  "ok (fetch (handler_query base_host host)) \<Longrightarrow>
   transformSparqlResponse URL (bindings (fetch (handler_query base_host host))) = Inr m \<Longrightarrow>
   m \<noteq> [] \<Longrightarrow> displayResults base_host m = Inl e \<Longrightarrow>
     load_handler base_host URL fetch navigatedBack host =
       \<lparr>request = handler_query base_host host, statuses = [''Searching...'', ''Found.''],
        displayed = None, timer = None, thrown = Some e\<rparr>"
  by (cases m) (simp_all add: load_handler_def handler_query_def Let_def isEmpty_def cong: if_cong)

lemma load_handler_found:
  "ok (fetch (handler_query base_host host)) \<Longrightarrow>
   transformSparqlResponse URL (bindings (fetch (handler_query base_host host))) = Inr m \<Longrightarrow>
   m \<noteq> [] \<Longrightarrow> displayResults base_host m = Inr cards \<Longrightarrow>
     load_handler base_host URL fetch navigatedBack host =
       (if navigatedBack
        then \<lparr>request = handler_query base_host host, statuses = [''Searching...'', ''Found.''],
              displayed = Some cards, timer = None, thrown = None\<rparr>
        else \<lparr>request = handler_query base_host host,
              statuses = [''Searching...'', ''Found.'', ''Redirecting...''],
              displayed = Some cards,
              timer = Some (if match_q_digits (removeSuffix host (''.'' @ base_host)) then 0 else 1000,
                            redirectTarget m),
              thrown = None\<rparr>)"
  by (cases m) (simp_all add: load_handler_def handler_query_def Let_def isEmpty_def cong: if_cong)

lemma request_handler_query:
  "request (load_handler base_host URL fetch navigatedBack host) = handler_query base_host host"
  by (simp add: request_load_handler handler_query_def)

text \<open>
  Claim C3, amended. Let the normaliser return a non-empty object all of whose entity URIs
  have the shape \<open>.../entity/Q<digits>\<close>, so that \<open>displayResults\<close> does not throw. If the
  back-navigation signal is true, the handler sets no timer and the results stay displayed. If
  it is false, the handler sets a timer whose callback navigates to the first destination of
  the first entry, with delay 0 when the token is a direct lookup and 1000 otherwise. The first
  entry is the entity inserted first, that of the first row that is not skipped.
\<close>

theorem redirect_decision:
  assumes out_def: "out = load_handler base_host URL fetch navigatedBack host"
    and "ok (fetch (request out))"
    and "transformSparqlResponse URL (bindings (fetch (request out))) = Inr m"
    and "m \<noteq> []"
    and "\<forall>k\<in>set (map fst m). \<exists>ds. spec_entity_shape k ds"
  shows "(navigatedBack \<longrightarrow> timer out = None \<and> thrown out = None
            \<and> statuses out = [''Searching...'', ''Found.'']
            \<and> (\<exists>cards. displayed out = Some cards \<and> map card_uri cards = map fst m))
     \<and> (\<not> navigatedBack \<longrightarrow>
           timer out = Some (if spec_Q_digits_anywhere (removeSuffix host (''.'' @ base_host))
                             then 0 else 1000,
                             Inr (url (hd (websites (snd (hd m))))))
            \<and> thrown out = None)
     \<and> fst (hd m) = item_value (hd (kept URL (bindings (fetch (request out)))))"
proof -
  have r: "request out = handler_query base_host host"
    unfolding assms(1) by (rule request_handler_query)
  note ok = assms(2) [unfolded r] and tr = assms(3) [unfolded r]
  from displayResults_shape [OF assms(4,5)] obtain cards where
    cards: "displayResults base_host m = Inr cards" "map card_uri cards = map fst m"
    by blast
  note out = load_handler_found [where fetch = fetch and base_host = base_host and host = host and URL = URL
      and navigatedBack = navigatedBack, OF ok tr assms(4) cards(1), folded out_def]
  have plain: "\<forall>k\<in>set (map fst m). \<not> isArrayIndex k"
    using assms(5) entity_shape_not_index by blast
  have "hd m \<in> set m" using assms(4) by simp
  with tr have "websites (snd (hd m)) \<noteq> []"
    by (rule normalizer_websites_nonempty)
  with assms(4) have target: "redirectTarget m = Inr (url (hd (websites (snd (hd m)))))"
    by (rule redirectTarget_hd)
  have first: "fst (hd m) = item_value (hd (kept URL (bindings (fetch (request out)))))"
    unfolding r using tr assms(4) plain by (rule normalizer_top)
  show ?thesis
  proof (cases navigatedBack)
    case True
    with out cards(2) first show ?thesis by simp
  next
    case False
    with out target first show ?thesis by (simp add: match_q_digits_iff)
  qed
qed


theorem redirect_decision_witness:
  "timer (load_handler ''wikimark.net'' example_URL
      (\<lambda>_. \<lparr>ok = True, bindings =
         [example_row ''http://www.wikidata.org/entity/Q42'' ''http://a.example/'' ''http://wikiba.se/ontology#PreferredRank'',
          example_row ''http://www.wikidata.org/entity/Q5'' ''http://b.example/'' ''http://wikiba.se/ontology#NormalRank'']\<rparr>)
      False ''q42.wikimark.net'')
     = Some (0, Inr \<lparr>href = ''http://a.example/'', hostname = ''a.example''\<rparr>)
   \<and> timer (load_handler ''wikimark.net'' example_URL
      (\<lambda>_. \<lparr>ok = True, bindings =
         [example_row ''http://www.wikidata.org/entity/Q42'' ''http://a.example/'' ''http://wikiba.se/ontology#PreferredRank'',
          example_row ''http://www.wikidata.org/entity/Q5'' ''http://b.example/'' ''http://wikiba.se/ontology#NormalRank'']\<rparr>)
      False ''douglas.wikimark.net'')
     = Some (1000, Inr \<lparr>href = ''http://a.example/'', hostname = ''a.example''\<rparr>)
   \<and> timer (load_handler ''wikimark.net'' example_URL
      (\<lambda>_. \<lparr>ok = True, bindings =
         [example_row ''http://www.wikidata.org/entity/Q42'' ''http://a.example/'' ''http://wikiba.se/ontology#PreferredRank'',
          example_row ''http://www.wikidata.org/entity/Q5'' ''http://b.example/'' ''http://wikiba.se/ontology#NormalRank'']\<rparr>)
      True ''q42.wikimark.net'')
     = None"
proof -
  define rows where "rows =
         [example_row ''http://www.wikidata.org/entity/Q42'' ''http://a.example/'' ''http://wikiba.se/ontology#PreferredRank'',
          example_row ''http://www.wikidata.org/entity/Q5'' ''http://b.example/'' ''http://wikiba.se/ontology#NormalRank'']"
  define fetch where "fetch = (\<lambda>_ :: string. \<lparr>ok = True, bindings = rows\<rparr>)"
  define m where "m =
     [(''http://www.wikidata.org/entity/Q42'',
         \<lparr>label = ''label of http://www.wikidata.org/entity/Q42'',
          description = ''description of http://www.wikidata.org/entity/Q42'',
          websites = [\<lparr>url = \<lparr>href = ''http://a.example/'', hostname = ''a.example''\<rparr>,
                       rank = Ranked PREFERRED\<rparr>]\<rparr>),
      (''http://www.wikidata.org/entity/Q5'',
         \<lparr>label = ''label of http://www.wikidata.org/entity/Q5'',
          description = ''description of http://www.wikidata.org/entity/Q5'',
          websites = [\<lparr>url = \<lparr>href = ''http://b.example/'', hostname = ''b.example''\<rparr>,
                       rank = Ranked NORMAL\<rparr>]\<rparr>)]"
  have ok: "ok (fetch q)" for q
    by (simp add: fetch_def)
  have tr: "transformSparqlResponse example_URL (bindings (fetch q)) = Inr m" for q
    by (simp add: fetch_def rows_def m_def eval_defs)
  have ne: "m \<noteq> []"
    by (simp add: m_def)
  have "exec_entity_pattern ''http://www.wikidata.org/entity/Q42'' = Some ''Q42''"
    "exec_entity_pattern ''http://www.wikidata.org/entity/Q5'' = Some ''Q5''"
    by (simp_all add: exec_entity_pattern_def isDigit_def endsWith_def lineTerminator_def)
  then have "\<exists>ds. spec_entity_shape ''http://www.wikidata.org/entity/Q42'' ds"
    "\<exists>ds. spec_entity_shape ''http://www.wikidata.org/entity/Q5'' ds"
    using exec_entity_pattern_Some by blast+
  then have shape: "\<forall>k\<in>set (map fst m). \<exists>ds. spec_entity_shape k ds"
    by (simp add: m_def)
  have t1: "removeSuffix ''q42.wikimark.net'' (''.'' @ ''wikimark.net'') = ''q42''"
    and t2: "removeSuffix ''douglas.wikimark.net'' (''.'' @ ''wikimark.net'') = ''douglas''"
    by (simp_all add: removeSuffix_def substring0_def lastIndexOf_def)
  have c: "spec_Q_digits_anywhere ''q42''" "\<not> spec_Q_digits_anywhere ''douglas''"
    by (simp_all add: match_q_digits_iff [symmetric] isDigit_def)
  have h: "url (hd (websites (snd (hd m)))) = \<lparr>href = ''http://a.example/'', hostname = ''a.example''\<rparr>"
    by (simp add: m_def)
  note d = redirect_decision [where URL = example_URL and fetch = fetch and m = m
      and base_host = "''wikimark.net''", OF refl ok tr ne shape]
  have "timer (load_handler ''wikimark.net'' example_URL fetch False ''q42.wikimark.net'')
     = Some (0, Inr \<lparr>href = ''http://a.example/'', hostname = ''a.example''\<rparr>)"
    using d [of False "''q42.wikimark.net''"] unfolding t1 h by (simp add: c)
  moreover have "timer (load_handler ''wikimark.net'' example_URL fetch False ''douglas.wikimark.net'')
     = Some (1000, Inr \<lparr>href = ''http://a.example/'', hostname = ''a.example''\<rparr>)"
    using d [of False "''douglas.wikimark.net''"] unfolding t2 h by (simp add: c)
  moreover have "timer (load_handler ''wikimark.net'' example_URL fetch True ''q42.wikimark.net'') = None"
    using d [of True "''q42.wikimark.net''"] by simp
  ultimately show ?thesis
    unfolding fetch_def rows_def by (simp only: simp_thms)
qed


text \<open>
  Claim C3 as stated fails: on the scenario of the specification the object is not empty and
  the signal is false, but \<open>displayResults\<close> throws at the permalink of \<open>E1\<close> and the handler
  ends before it sets a timer.
\<close>

theorem redirect_decision_counterexample:
  "transformSparqlResponse example_URL spec_scenario =
     Inr [(''E1'', \<lparr>label = ''label of E1'', description = ''description of E1'',
                   websites = [\<lparr>url = \<lparr>href = ''http://a.example/'', hostname = ''a.example''\<rparr>,
                                rank = Ranked PREFERRED\<rparr>]\<rparr>),
          (''E2'', \<lparr>label = ''label of E2'', description = ''description of E2'',
                   websites = [\<lparr>url = \<lparr>href = ''http://b.example/'', hostname = ''b.example''\<rparr>,
                                rank = Ranked NORMAL\<rparr>]\<rparr>)]
   \<and> timer (load_handler ''wikimark.net'' example_URL (\<lambda>_. \<lparr>ok = True, bindings = spec_scenario\<rparr>)
        False ''q42.wikimark.net'') = None
   \<and> thrown (load_handler ''wikimark.net'' example_URL (\<lambda>_. \<lparr>ok = True, bindings = spec_scenario\<rparr>)
        False ''q42.wikimark.net'') = Some TypeError_Null"
proof -
  define m where "m = [(''E1'', \<lparr>label = ''label of E1'', description = ''description of E1'',
                   websites = [\<lparr>url = \<lparr>href = ''http://a.example/'', hostname = ''a.example''\<rparr>,
                                rank = Ranked PREFERRED\<rparr>]\<rparr>),
          (''E2'', \<lparr>label = ''label of E2'', description = ''description of E2'',
                   websites = [\<lparr>url = \<lparr>href = ''http://b.example/'', hostname = ''b.example''\<rparr>,
                                rank = Ranked NORMAL\<rparr>]\<rparr>)]"
  have tr: "transformSparqlResponse example_URL spec_scenario = Inr m"
    by (simp add: m_def eval_defs spec_scenario_def)
  have "exec_entity_pattern ''E1'' = None"
    by (simp add: exec_entity_pattern_def isDigit_def endsWith_def)
  then have dr: "displayResults ''wikimark.net'' m = Inl TypeError_Null"
    by (simp add: m_def displayResults_def renderCard_def generatePermalink_def)
  have "load_handler ''wikimark.net'' example_URL (\<lambda>_. \<lparr>ok = True, bindings = spec_scenario\<rparr>)
        False ''q42.wikimark.net'' =
       \<lparr>request = handler_query ''wikimark.net'' ''q42.wikimark.net'',
        statuses = [''Searching...'', ''Found.''],
        displayed = None, timer = None, thrown = Some TypeError_Null\<rparr>"
    by (rule load_handler_display_thrown [where m = m]) (simp_all add: tr dr, simp add: m_def)
  with tr show ?thesis
    unfolding m_def by simp
qed


text \<open>
  Claim C8. If the response is not a success, the handler ends with the status
  \<open>Search failed!\<close>, displays nothing and sets no timer; the rows of the response and the
  \<open>URL\<close> parser play no part, so no object is built. If the response is a success and the
  normaliser returns the empty object, the handler ends with the status \<open>Not found.\<close>,
  displays nothing and sets no timer.
\<close>

theorem terminal_failures:
  assumes out_def: "out = load_handler base_host URL fetch navigatedBack host"
  shows "(\<not> ok (fetch (request out)) \<longrightarrow>
            statuses out = [''Searching...'', ''Search failed!''] \<and> displayed out = None
            \<and> timer out = None \<and> thrown out = None
            \<and> load_handler base_host URL' (\<lambda>q. \<lparr>ok = False, bindings = bs\<rparr>) navigatedBack' host = out)
     \<and> (ok (fetch (request out))
          \<and> transformSparqlResponse URL (bindings (fetch (request out))) = Inr [] \<longrightarrow>
            statuses out = [''Searching...'', ''Not found.''] \<and> displayed out = None
            \<and> timer out = None \<and> thrown out = None)"
proof -
  have r: "request out = handler_query base_host host"
    unfolding assms(1) by (rule request_handler_query)
  show ?thesis
  proof (intro conjI impI)
    assume "\<not> ok (fetch (request out))"
    then have "\<not> ok (fetch (handler_query base_host host))" unfolding r .
    from load_handler_failed [where fetch = fetch and base_host = base_host and host = host
        and URL = URL and navigatedBack = navigatedBack, OF this, folded out_def]
    have o: "out = \<lparr>request = handler_query base_host host,
        statuses = [''Searching...'', ''Search failed!''],
        displayed = None, timer = None, thrown = None\<rparr>" .
    then show "statuses out = [''Searching...'', ''Search failed!'']" "displayed out = None"
      "timer out = None" "thrown out = None"
      by simp_all
    show "load_handler base_host URL' (\<lambda>q. \<lparr>ok = False, bindings = bs\<rparr>) navigatedBack' host = out"
      unfolding o by (rule load_handler_failed) simp
  next
    assume "ok (fetch (request out))
          \<and> transformSparqlResponse URL (bindings (fetch (request out))) = Inr []"
    then have "ok (fetch (handler_query base_host host))"
      "transformSparqlResponse URL (bindings (fetch (handler_query base_host host))) = Inr []"
      unfolding r by simp_all
    from load_handler_not_found [where fetch = fetch and base_host = base_host and host = host
        and URL = URL and navigatedBack = navigatedBack, OF this, folded out_def]
    show "statuses out = [''Searching...'', ''Not found.'']" "displayed out = None"
      "timer out = None" "thrown out = None"
      by simp_all
  qed
qed

theorem terminal_failures_witness:
  "statuses (load_handler ''wikimark.net'' example_URL (\<lambda>_. \<lparr>ok = False, bindings = spec_scenario\<rparr>)
        False ''q42.wikimark.net'') = [''Searching...'', ''Search failed!'']
   \<and> timer (load_handler ''wikimark.net'' example_URL (\<lambda>_. \<lparr>ok = False, bindings = spec_scenario\<rparr>)
        False ''q42.wikimark.net'') = None
   \<and> statuses (load_handler ''wikimark.net'' example_URL
        (\<lambda>_. \<lparr>ok = True, bindings = [example_row ''E1'' ''http://x.onion/'' ''http://wikiba.se/ontology#NormalRank'']\<rparr>)
        False ''q42.wikimark.net'') = [''Searching...'', ''Not found.'']
   \<and> timer (load_handler ''wikimark.net'' example_URL
        (\<lambda>_. \<lparr>ok = True, bindings = [example_row ''E1'' ''http://x.onion/'' ''http://wikiba.se/ontology#NormalRank'']\<rparr>)
        False ''q42.wikimark.net'') = None"
proof -
  define failing where "failing = (\<lambda>_ :: string. \<lparr>ok = False, bindings = spec_scenario\<rparr>)"
  define onions where "onions = (\<lambda>_ :: string. \<lparr>ok = True, bindings =
     [example_row ''E1'' ''http://x.onion/'' ''http://wikiba.se/ontology#NormalRank'']\<rparr>)"
  have 1: "\<not> ok (failing q)" for q
    by (simp add: failing_def)
  have 2: "ok (onions q) \<and> transformSparqlResponse example_URL (bindings (onions q)) = Inr []" for q
    by (simp add: onions_def eval_defs)
  note a = terminal_failures [where fetch = failing and URL = example_URL
      and base_host = "''wikimark.net''" and host = "''q42.wikimark.net''" and navigatedBack = False,
      OF refl, THEN conjunct1, THEN mp, OF 1]
  note b = terminal_failures [where fetch = onions and URL = example_URL
      and base_host = "''wikimark.net''" and host = "''q42.wikimark.net''" and navigatedBack = False,
      OF refl, THEN conjunct2, THEN mp, OF 2]
  from a b show ?thesis
    unfolding failing_def onions_def by (simp only: simp_thms)
qed

end
